theory Spec2Isabelle
  imports Main "HOL-Library.Word"
begin

section \<open>The ML-DSA-65 entry points of sig\_dilithium3.c\<close>

text \<open>
  The file defines three functions, \<^verbatim>\<open>ml_dsa_65_keypair\<close>, \<^verbatim>\<open>ml_dsa_65_sign\<close> and
  \<^verbatim>\<open>ml_dsa_65_verify\<close>. Each declares one local \<^verbatim>\<open>ml_dsa_params params\<close>, calls
  \<^verbatim>\<open>ml_dsa_65_params_init(&params)\<close> and returns the result of one function of the
  reference code (\<^verbatim>\<open>crypto_sign_keypair\<close>, \<^verbatim>\<open>crypto_sign_signature\<close>,
  \<^verbatim>\<open>crypto_sign_verify\<close>), to which it hands \<^verbatim>\<open>&params\<close> and its own arguments.

  The reference code is pulled in by \<^verbatim>\<open>#include\<close> of files that are not part of the
  sources at hand (params.c, sign.c, rounding.c, ...). Its four functions are therefore
  parameters of the model, and so is the struct type \<^verbatim>\<open>ml_dsa_params\<close>.
\<close>

subsection \<open>C values\<close>

type_synonym u8 = "8 word"
type_synonym c_int = "32 word"   \<comment> \<open>\<^verbatim>\<open>int\<close>; \<open>sint\<close> reads it\<close>
type_synonym size_t = "64 word"
type_synonym ptr = "64 word"     \<comment> \<open>\<^verbatim>\<open>uint8_t *\<close>, \<^verbatim>\<open>size_t *\<close>: an address, nothing more\<close>

subsection \<open>Machine state\<close>

text \<open>
  While a wrapper runs, the machine consists of the wrapper's frame, which holds its only
  local variable \<open>params\<close>, and of everything else (\<open>world\<close>: the memory the pointer
  arguments refer to, the random source the reference code draws from, any global).
  The type \<open>'p\<close> stands for \<^verbatim>\<open>ml_dsa_params\<close>, \<open>'w\<close> for the rest of the machine.
  A callee that is given \<^verbatim>\<open>&params\<close> may read and write the local as well as the world,
  so it is a function on the whole state.
\<close>

record ('p, 'w) state =
  params :: 'p
  world :: 'w

text \<open>The functions of the reference code that sig\_dilithium3.c calls, in the order of
  their C parameters after \<^verbatim>\<open>ml_dsa_params *params\<close>.\<close>

record ('p, 'w) ref_code =
  ml_dsa_65_params_init :: "('p, 'w) state \<Rightarrow> ('p, 'w) state"
  crypto_sign_keypair ::
    "ptr \<Rightarrow> ptr \<Rightarrow> ('p, 'w) state \<Rightarrow> c_int \<times> ('p, 'w) state"
  crypto_sign_signature ::
    "ptr \<Rightarrow> ptr \<Rightarrow> ptr \<Rightarrow> size_t \<Rightarrow> ptr \<Rightarrow> size_t \<Rightarrow> ptr \<Rightarrow>
     ('p, 'w) state \<Rightarrow> c_int \<times> ('p, 'w) state"
  crypto_sign_verify ::
    "ptr \<Rightarrow> size_t \<Rightarrow> ptr \<Rightarrow> size_t \<Rightarrow> ptr \<Rightarrow> size_t \<Rightarrow> ptr \<Rightarrow>
     ('p, 'w) state \<Rightarrow> c_int \<times> ('p, 'w) state"

subsection \<open>The three wrappers\<close>

text \<open>
  \<open>junk\<close> is the indeterminate content of the uninitialised local \<^verbatim>\<open>params\<close> at entry.
  At \<^verbatim>\<open>return\<close> the frame is popped: the caller gets the \<^verbatim>\<open>int\<close> and the world.
\<close>

definition ml_dsa_65_keypair ::
  "('p, 'w) ref_code \<Rightarrow> 'p \<Rightarrow> ptr \<Rightarrow> ptr \<Rightarrow> 'w \<Rightarrow> c_int \<times> 'w" where
  "ml_dsa_65_keypair R junk public_key secret_key w =
     (let s0 = \<lparr>params = junk, world = w\<rparr>;
          s1 = ml_dsa_65_params_init R s0;
          (ret, s2) = crypto_sign_keypair R public_key secret_key s1
      in (ret, world s2))"

definition ml_dsa_65_sign ::
  "('p, 'w) ref_code \<Rightarrow> 'p \<Rightarrow> ptr \<Rightarrow> ptr \<Rightarrow> ptr \<Rightarrow> size_t \<Rightarrow> ptr \<Rightarrow> size_t \<Rightarrow> ptr \<Rightarrow>
   'w \<Rightarrow> c_int \<times> 'w" where
  "ml_dsa_65_sign R junk sig sig_len message message_len ctx ctx_len secret_key w =
     (let s0 = \<lparr>params = junk, world = w\<rparr>;
          s1 = ml_dsa_65_params_init R s0;
          (ret, s2) = crypto_sign_signature R sig sig_len message message_len
                        ctx ctx_len secret_key s1
      in (ret, world s2))"

definition ml_dsa_65_verify ::
  "('p, 'w) ref_code \<Rightarrow> 'p \<Rightarrow> ptr \<Rightarrow> size_t \<Rightarrow> ptr \<Rightarrow> size_t \<Rightarrow> ptr \<Rightarrow> size_t \<Rightarrow> ptr \<Rightarrow>
   'w \<Rightarrow> c_int \<times> 'w" where
  "ml_dsa_65_verify R junk message message_len sig sig_len ctx ctx_len public_key w =
     (let s0 = \<lparr>params = junk, world = w\<rparr>;
          s1 = ml_dsa_65_params_init R s0;
          (ret, s2) = crypto_sign_verify R sig sig_len message message_len
                        ctx ctx_len public_key s1
      in (ret, world s2))"

subsection \<open>The wrappers as the reference code on a fresh parameter set\<close>

text \<open>
  What each wrapper is meant to be: the reference function, run on the parameter set that
  \<^verbatim>\<open>ml_dsa_65_params_init\<close> leaves in a fresh local, and nothing else. The caller sees the
  return value and the world (which holds the output buffers).
\<close>

definition fresh_params :: "('p, 'w) ref_code \<Rightarrow> 'p \<Rightarrow> 'w \<Rightarrow> ('p, 'w) state" where
  "fresh_params R junk w = ml_dsa_65_params_init R \<lparr>params = junk, world = w\<rparr>"

definition observe :: "c_int \<times> ('p, 'w) state \<Rightarrow> c_int \<times> 'w" where
  "observe r = (fst r, world (snd r))"

definition reference_keypair ::
  "('p, 'w) ref_code \<Rightarrow> 'p \<Rightarrow> ptr \<Rightarrow> ptr \<Rightarrow> 'w \<Rightarrow> c_int \<times> 'w" where
  "reference_keypair R junk public_key secret_key w =
     observe (crypto_sign_keypair R public_key secret_key (fresh_params R junk w))"

definition reference_sign ::
  "('p, 'w) ref_code \<Rightarrow> 'p \<Rightarrow> ptr \<Rightarrow> ptr \<Rightarrow> ptr \<Rightarrow> size_t \<Rightarrow> ptr \<Rightarrow> size_t \<Rightarrow> ptr \<Rightarrow>
   'w \<Rightarrow> c_int \<times> 'w" where
  "reference_sign R junk sig sig_len message message_len ctx ctx_len secret_key w =
     observe (crypto_sign_signature R sig sig_len message message_len ctx ctx_len secret_key
                (fresh_params R junk w))"

definition reference_verify ::
  "('p, 'w) ref_code \<Rightarrow> 'p \<Rightarrow> ptr \<Rightarrow> size_t \<Rightarrow> ptr \<Rightarrow> size_t \<Rightarrow> ptr \<Rightarrow> size_t \<Rightarrow> ptr \<Rightarrow>
   'w \<Rightarrow> c_int \<times> 'w" where
  "reference_verify R junk message message_len sig sig_len ctx ctx_len public_key w =
     observe (crypto_sign_verify R sig sig_len message message_len ctx ctx_len public_key
                (fresh_params R junk w))"

subsection \<open>Sequences of calls\<close>

text \<open>
  A client makes one call after another. Each call gets a new frame, whose local starts
  with some indeterminate content of its own; the world is handed from call to call.
\<close>

datatype call =
  Keypair ptr ptr
| Sign ptr ptr ptr size_t ptr size_t ptr
| Verify ptr size_t ptr size_t ptr size_t ptr

fun wrapper_call :: "('p, 'w) ref_code \<Rightarrow> 'p \<Rightarrow> call \<Rightarrow> 'w \<Rightarrow> c_int \<times> 'w" where
  "wrapper_call R junk (Keypair pk sk) w = ml_dsa_65_keypair R junk pk sk w"
| "wrapper_call R junk (Sign sg sl m ml c cl sk) w = ml_dsa_65_sign R junk sg sl m ml c cl sk w"
| "wrapper_call R junk (Verify m ml sg sl c cl pk) w =
     ml_dsa_65_verify R junk m ml sg sl c cl pk w"

fun reference_call :: "('p, 'w) ref_code \<Rightarrow> 'p \<Rightarrow> call \<Rightarrow> 'w \<Rightarrow> c_int \<times> 'w" where
  "reference_call R junk (Keypair pk sk) w = reference_keypair R junk pk sk w"
| "reference_call R junk (Sign sg sl m ml c cl sk) w =
     reference_sign R junk sg sl m ml c cl sk w"
| "reference_call R junk (Verify m ml sg sl c cl pk) w =
     reference_verify R junk m ml sg sl c cl pk w"

text \<open>Runs the calls in order; returns the return values and the final world.\<close>

fun run_calls ::
  "('p \<Rightarrow> call \<Rightarrow> 'w \<Rightarrow> c_int \<times> 'w) \<Rightarrow> ('p \<times> call) list \<Rightarrow> 'w \<Rightarrow> c_int list \<times> 'w" where
  "run_calls f [] w = ([], w)"
| "run_calls f ((junk, c) # cs) w =
     (let (ret, w') = f junk c w;
          (rets, w'') = run_calls f cs w'
      in (ret # rets, w''))"

section \<open>Rounding: Decompose\<close>

text \<open>
  Modelled from the spec: the field modulus \<open>q\<close> of the parameter set (spec 3); params.h,
  which defines it for the code, is not among the sources.
\<close>

definition q :: int where
  "q = 8380417"

text \<open>
  Modelled from the spec: the centred low part (spec 4.4, "r0 centered"), that is the
  representative of \<open>x\<close> modulo \<open>a\<close> in \<open>(-a/2, a/2]\<close>.
\<close>

definition mod_pm :: "int \<Rightarrow> int \<Rightarrow> int" where
  "mod_pm x a = (let t = x mod a in if a div 2 < t then t - a else t)"

text \<open>
  Modelled from the spec: \<^verbatim>\<open>decompose\<close> of rounding.c, which sig\_dilithium3.c only
  includes. The spec (4.4) describes it as the rounding with respect to \<open>\<gamma>2\<close> that
  splits a coefficient \<open>r\<close> into a high part \<open>r1\<close> and a centred low part \<open>r0\<close>, where the
  highest bucket folds to 0 and \<open>r0\<close> absorbs the difference. \<open>\<gamma>2\<close> is a field of the
  parameter set, so it is an argument here; a bucket is \<open>2 * \<gamma>2\<close> wide.
\<close>

definition decompose :: "int \<Rightarrow> int \<Rightarrow> int \<times> int" where
  "decompose gamma2 r =
     (let rp = r mod q;
          r0 = mod_pm rp (2 * gamma2)
      in if rp - r0 = q - 1 then (0, r0 - 1)
         else ((rp - r0) div (2 * gamma2), r0))"

section \<open>The wrappers against the reference code\<close>

lemma wrapper_call_reference: "wrapper_call R junk c w = reference_call R junk c w"
  by (cases c)
     (simp_all add: ml_dsa_65_keypair_def ml_dsa_65_sign_def ml_dsa_65_verify_def
        reference_keypair_def reference_sign_def reference_verify_def
        fresh_params_def observe_def Let_def split_beta)

lemma run_calls_pointwise:
  "(\<And>junk c w. f junk c w = g junk c w) \<Longrightarrow> run_calls f cs w = run_calls g cs w"
  by (induction cs arbitrary: w) (auto simp: Let_def split_beta)

text \<open>
  C10. Each of \<^verbatim>\<open>ml_dsa_65_keypair\<close>, \<^verbatim>\<open>ml_dsa_65_sign\<close> and \<^verbatim>\<open>ml_dsa_65_verify\<close>
  returns the return value of its reference function and leaves the world (hence every
  output buffer) as that function leaves it, when the function is run on the parameter set
  that \<^verbatim>\<open>ml_dsa_65_params_init\<close> writes into a fresh local. This holds whatever the local
  held before. The wrappers keep nothing from one call to the next: any sequence of calls
  returns the same values and ends in the same world as the sequence of reference calls,
  each on a parameter set of its own.
\<close>

theorem wrappers_are_reference_calls:
  "ml_dsa_65_keypair R junk public_key secret_key w =
     reference_keypair R junk public_key secret_key w
   \<and> ml_dsa_65_sign R junk sig sig_len message message_len ctx ctx_len secret_key w =
     reference_sign R junk sig sig_len message message_len ctx ctx_len secret_key w
   \<and> ml_dsa_65_verify R junk message message_len sig sig_len ctx ctx_len public_key w =
     reference_verify R junk message message_len sig sig_len ctx ctx_len public_key w
   \<and> run_calls (wrapper_call R) cs w = run_calls (reference_call R) cs w"
proof -
  have "run_calls (wrapper_call R) cs w = run_calls (reference_call R) cs w"
    by (rule run_calls_pointwise) (rule wrapper_call_reference)
  moreover have "ml_dsa_65_keypair R junk public_key secret_key w =
     reference_keypair R junk public_key secret_key w"
    using wrapper_call_reference [of R junk "Keypair public_key secret_key" w] by simp
  moreover have
    "ml_dsa_65_sign R junk sig sig_len message message_len ctx ctx_len secret_key w =
     reference_sign R junk sig sig_len message message_len ctx ctx_len secret_key w"
    using wrapper_call_reference
      [of R junk "Sign sig sig_len message message_len ctx ctx_len secret_key" w]
    by simp
  moreover have
    "ml_dsa_65_verify R junk message message_len sig sig_len ctx ctx_len public_key w =
     reference_verify R junk message message_len sig sig_len ctx ctx_len public_key w"
    using wrapper_call_reference
      [of R junk "Verify message message_len sig sig_len ctx ctx_len public_key" w]
    by simp
  ultimately show ?thesis by blast
qed

section \<open>Decompose at the bucket boundaries\<close>

lemma mod_pm_range:
  assumes "0 < g"
  shows "- g < mod_pm x (2 * g)" and "mod_pm x (2 * g) \<le> g"
proof -
  define t where "t = x mod (2 * g)"
  have t: "0 \<le> t" "t < 2 * g"
    using assms by (simp_all add: t_def)
  have m: "mod_pm x (2 * g) = (if g < t then t - 2 * g else t)"
    by (simp add: mod_pm_def t_def)
  show "- g < mod_pm x (2 * g)" using t assms unfolding m by auto
  show "mod_pm x (2 * g) \<le> g" using t assms unfolding m by auto
qed

lemma mod_pm_multiple:
  "\<exists>k. x - mod_pm x (2 * g) = k * (2 * g)"
proof -
  define t where "t = x mod (2 * g)"
  have x: "x = x div (2 * g) * (2 * g) + t"
    unfolding t_def by (rule div_mult_mod_eq [symmetric])
  have m: "mod_pm x (2 * g) = (if g < t then t - 2 * g else t)"
    by (simp add: mod_pm_def t_def)
  show ?thesis
  proof (cases "g < t")
    case True
    then have "x - mod_pm x (2 * g) = (x div (2 * g) + 1) * (2 * g)"
      using x m by (simp add: algebra_simps)
    then show ?thesis by blast
  next
    case False
    then have "x - mod_pm x (2 * g) = (x div (2 * g)) * (2 * g)"
      using x m by (simp add: algebra_simps)
    then show ?thesis by blast
  qed
qed

lemma mod_pm_centred:
  assumes "0 < g" and "- g < r0" and "r0 \<le> g"
  shows "mod_pm (k * (2 * g) + r0) (2 * g) = r0"
proof (cases "0 \<le> r0")
  case True
  then have "(k * (2 * g) + r0) mod (2 * g) = r0"
    using assms by simp
  then show ?thesis
    using assms by (simp add: mod_pm_def)
next
  case False
  have "(k * (2 * g) + r0) mod (2 * g) = ((k - 1) * (2 * g) + (r0 + 2 * g)) mod (2 * g)"
    by (simp add: algebra_simps)
  also have "\<dots> = (r0 + 2 * g) mod (2 * g)"
    by (rule mod_mult_self3)
  also have "\<dots> = r0 + 2 * g"
    using False assms by (intro mod_pos_pos_trivial) auto
  finally have "(k * (2 * g) + r0) mod (2 * g) = r0 + 2 * g" .
  then show ?thesis
    using assms by (simp add: mod_pm_def)
qed

lemma buckets:
  assumes "0 < g" and "2 * g dvd q - 1"
  shows "(q - 1) div (2 * g) * (2 * g) = q - 1" and "0 < (q - 1) div (2 * g)"
proof -
  show e: "(q - 1) div (2 * g) * (2 * g) = q - 1"
    using assms(2) by simp
  have "0 < q - 1" by (simp add: q_def)
  then have "0 < (q - 1) div (2 * g) * (2 * g)" using e by simp
  then show "0 < (q - 1) div (2 * g)"
    using assms(1) by (simp add: zero_less_mult_iff)
qed

lemma decompose_at:
  assumes g: "0 < g" and d: "2 * g dvd q - 1"
    and lo: "0 \<le> k * (2 * g) + r0" and hi: "k * (2 * g) + r0 < q"
    and r0: "- g < r0" "r0 \<le> g"
  shows "decompose g (k * (2 * g) + r0) =
           (if k = (q - 1) div (2 * g) then (0, r0 - 1) else (k, r0))"
proof -
  let ?r = "k * (2 * g) + r0"
  have rp: "?r mod q = ?r"
    using lo hi by simp
  have c: "mod_pm ?r (2 * g) = r0"
    using g r0 by (rule mod_pm_centred)
  have e: "(q - 1) div (2 * g) * (2 * g) = q - 1"
    using buckets(1) [OF g d] .
  have top: "k * (2 * g) = q - 1 \<longleftrightarrow> k = (q - 1) div (2 * g)"
  proof
    assume "k * (2 * g) = q - 1"
    then have "k * (2 * g) = (q - 1) div (2 * g) * (2 * g)" using e by simp
    then show "k = (q - 1) div (2 * g)" using g by simp
  next
    assume "k = (q - 1) div (2 * g)"
    then show "k * (2 * g) = q - 1" using e by simp
  qed
  have dv: "k * (2 * g) div (2 * g) = k"
    using g by simp
  show ?thesis
    unfolding decompose_def rp c Let_def
    using top dv by simp
qed

text \<open>Every residue has such a representation, with the bucket index in range 0..m.\<close>

lemma representation:
  assumes g: "0 < g" and d: "2 * g dvd q - 1"
  obtains k r0 where "r mod q = k * (2 * g) + r0" "- g < r0" "r0 \<le> g"
    "0 \<le> k" "k \<le> (q - 1) div (2 * g)"
proof -
  define rp where "rp = r mod q"
  define r0 where "r0 = mod_pm rp (2 * g)"
  have rp: "0 \<le> rp" "rp \<le> q - 1"
    using pos_mod_bound [of q r] pos_mod_sign [of q r] by (simp_all add: rp_def q_def)
  have b: "- g < r0" "r0 \<le> g"
    using mod_pm_range [OF g, of rp] by (simp_all add: r0_def)
  obtain k where k: "rp - r0 = k * (2 * g)"
    using mod_pm_multiple [of rp g] unfolding r0_def by blast
  have e: "(q - 1) div (2 * g) * (2 * g) = q - 1"
    using buckets(1) [OF g d] .
  have "- (1 * (2 * g)) < k * (2 * g)"
    using k rp b g by linarith
  then have "- 1 < k"
    using g by (simp only: mult_less_cancel_right_pos minus_mult_left) 
  then have k0: "0 \<le> k" by simp
  have "k * (2 * g) < ((q - 1) div (2 * g) + 1) * (2 * g)"
    using k rp b g e by (simp add: algebra_simps)
  then have "k < (q - 1) div (2 * g) + 1"
    using g by (simp only: mult_less_cancel_right_pos) 
  then have km: "k \<le> (q - 1) div (2 * g)" by simp
  have "r mod q = k * (2 * g) + r0"
    using k by (simp add: rp_def)
  then show thesis
    using b k0 km that by blast
qed


lemma decompose_mod: "decompose g (r mod q) = decompose g r"
  by (simp add: decompose_def)

lemma decompose_top:
  assumes g: "0 < g" and d: "2 * g dvd q - 1" and r: "q - 1 - g < r" "r < q"
  shows "decompose g r = (0, r - q)"
proof -
  let ?m = "(q - 1) div (2 * g)"
  have e: "?m * (2 * g) = q - 1"
    using buckets(1) [OF g d] .
  have "2 * g \<le> q - 1"
    using d by (rule zdvd_imp_le) (simp add: q_def)
  then have lo: "0 \<le> ?m * (2 * g) + (r - (q - 1))"
    unfolding e using r g by simp
  have hi: "?m * (2 * g) + (r - (q - 1)) < q"
    unfolding e using r by simp
  have "decompose g (?m * (2 * g) + (r - (q - 1))) =
          (if ?m = ?m then (0, r - (q - 1) - 1) else (?m, r - (q - 1)))"
    using g d lo hi by (rule decompose_at) (use r in simp_all)
  then show ?thesis
    unfolding e by simp
qed

lemma decompose_boundary_low:
  assumes g: "0 < g" and d: "2 * g dvd q - 1" and j: "0 \<le> j" "j < (q - 1) div (2 * g)"
  shows "decompose g ((2 * j + 1) * g) = (j, g)"
proof -
  let ?m = "(q - 1) div (2 * g)"
  have e: "?m * (2 * g) = q - 1"
    using buckets(1) [OF g d] .
  have "(j + 1) * (2 * g) \<le> ?m * (2 * g)"
    using j g by (intro mult_right_mono) simp_all
  then have hi: "j * (2 * g) + g < q"
    using e g by (simp add: algebra_simps)
  have lo: "0 \<le> j * (2 * g) + g"
    using j g by simp
  have "decompose g (j * (2 * g) + g) = (if j = ?m then (0, g - 1) else (j, g))"
    using g d lo hi by (intro decompose_at) simp_all
  moreover have "j * (2 * g) + g = (2 * j + 1) * g"
    by (simp add: algebra_simps)
  ultimately show ?thesis
    using j by simp
qed

lemma decompose_boundary_high:
  assumes g: "0 < g" and d: "2 * g dvd q - 1" and j: "0 \<le> j" "j < (q - 1) div (2 * g)"
  shows "decompose g ((2 * j + 1) * g + 1) =
           (if j + 1 = (q - 1) div (2 * g) then (0, - g) else (j + 1, 1 - g))"
proof -
  let ?m = "(q - 1) div (2 * g)"
  have e: "?m * (2 * g) = q - 1"
    using buckets(1) [OF g d] .
  have "(j + 1) * (2 * g) \<le> ?m * (2 * g)"
    using j g by (intro mult_right_mono) simp_all
  then have hi: "(j + 1) * (2 * g) + (1 - g) < q"
    using e g by (simp add: algebra_simps)
  have "0 \<le> j * (2 * g)"
    using j g by simp
  then have lo: "0 \<le> (j + 1) * (2 * g) + (1 - g)"
    using g by (simp add: algebra_simps)
  have "decompose g ((j + 1) * (2 * g) + (1 - g)) =
          (if j + 1 = ?m then (0, 1 - g - 1) else (j + 1, 1 - g))"
    using g d lo hi by (intro decompose_at) simp_all
  moreover have "(j + 1) * (2 * g) + (1 - g) = (2 * j + 1) * g + 1"
    by (simp add: algebra_simps)
  ultimately show ?thesis
    by simp
qed

lemma decompose_sound:
  assumes g: "0 < g" and d: "2 * g dvd q - 1"
  shows "0 \<le> fst (decompose g x)" and "fst (decompose g x) < (q - 1) div (2 * g)"
    and "- g \<le> snd (decompose g x)" and "snd (decompose g x) \<le> g"
    and "(fst (decompose g x) * (2 * g) + snd (decompose g x)) mod q = x mod q"
proof -
  let ?m = "(q - 1) div (2 * g)"
  obtain k r0 where rep: "x mod q = k * (2 * g) + r0" and r0: "- g < r0" "r0 \<le> g"
    and k: "0 \<le> k" "k \<le> ?m"
    using representation [OF g d, of x] by blast
  have e: "?m * (2 * g) = q - 1"
    using buckets(1) [OF g d] .
  have m: "0 < ?m"
    using buckets(2) [OF g d] .
  have b: "0 \<le> k * (2 * g) + r0" "k * (2 * g) + r0 < q"
    using rep pos_mod_sign [of q x] pos_mod_bound [of q x] by (simp_all add: q_def)
  have "decompose g x = decompose g (k * (2 * g) + r0)"
    using decompose_mod [of g x] rep by simp
  also have "\<dots> = (if k = ?m then (0, r0 - 1) else (k, r0))"
    using g d b r0 by (rule decompose_at)
  finally have v: "decompose g x = (if k = ?m then (0, r0 - 1) else (k, r0))" .
  show "0 \<le> fst (decompose g x)" using v k by simp
  show "fst (decompose g x) < ?m" using v k m by auto
  show "- g \<le> snd (decompose g x)" using v r0 by simp
  show "snd (decompose g x) \<le> g" using v r0 by simp
  show "(fst (decompose g x) * (2 * g) + snd (decompose g x)) mod q = x mod q"
  proof (cases "k = ?m")
    case True
    then have "fst (decompose g x) * (2 * g) + snd (decompose g x) = x mod q - 1 * q"
      using v rep e by simp
    then have "(fst (decompose g x) * (2 * g) + snd (decompose g x)) mod q
                 = (x mod q - 1 * q) mod q"
      by simp
    also have "\<dots> = x mod q"
      by (simp only: mod_mult_self1 diff_conv_add_uminus minus_mult_left mod_mod_trivial) 
    finally show ?thesis .
  next
    case False
    then have "fst (decompose g x) * (2 * g) + snd (decompose g x) = x mod q"
      using v rep by simp
    then show ?thesis by simp
  qed
qed

text \<open>
  C5. Let \<open>2 * \<gamma>2\<close> divide \<open>q - 1\<close>, so that there are \<open>m = (q - 1) div (2 * \<gamma>2)\<close> buckets.
  Decompose maps \<open>q - 1\<close> to \<open>(0, -1)\<close>; it maps every \<open>r\<close> of the top half bucket
  \<open>q - 1 - \<gamma>2 < r < q\<close> to \<open>(0, r - q)\<close>, the high part folded to 0 and the low part taking
  up the difference; on the two sides of the boundary above bucket \<open>j\<close> it gives
  \<open>(j, \<gamma>2)\<close> and \<open>(j + 1, 1 - \<gamma>2)\<close>, the latter folded to \<open>(0, - \<gamma>2)\<close> when \<open>j + 1 = m\<close>.
  For every input the high part lies in \<open>0 ..< m\<close>, the low part in \<open>- \<gamma>2 .. \<gamma>2\<close>, and
  \<open>r1 * 2 * \<gamma>2 + r0\<close> is congruent to the input modulo \<open>q\<close>.
\<close>

theorem decompose_folds_top_bucket:
  assumes "0 < gamma2" and "2 * gamma2 dvd q - 1"
  shows "decompose gamma2 (q - 1) = (0, - 1)
    \<and> (q - 1 - gamma2 < r \<and> r < q \<longrightarrow> decompose gamma2 r = (0, r - q))
    \<and> (0 \<le> j \<and> j < (q - 1) div (2 * gamma2) \<longrightarrow>
         decompose gamma2 ((2 * j + 1) * gamma2) = (j, gamma2)
         \<and> decompose gamma2 ((2 * j + 1) * gamma2 + 1) =
             (if j + 1 = (q - 1) div (2 * gamma2) then (0, - gamma2)
              else (j + 1, 1 - gamma2)))
    \<and> 0 \<le> fst (decompose gamma2 x)
    \<and> fst (decompose gamma2 x) < (q - 1) div (2 * gamma2)
    \<and> - gamma2 \<le> snd (decompose gamma2 x)
    \<and> snd (decompose gamma2 x) \<le> gamma2
    \<and> (fst (decompose gamma2 x) * (2 * gamma2) + snd (decompose gamma2 x)) mod q = x mod q"
proof -
  have "decompose gamma2 (q - 1) = (0, (q - 1) - q)"
    using assms by (intro decompose_top) simp_all
  then have "decompose gamma2 (q - 1) = (0, - 1)"
    by simp
  then show ?thesis
    using decompose_top [OF assms, of r]
      decompose_boundary_low [OF assms, of j] decompose_boundary_high [OF assms, of j]
      decompose_sound [OF assms, of x]
    by blast
qed

text \<open>At \<open>\<gamma>2 = 261888 = (q - 1) / 32\<close> there are 16 buckets; the top one folds.\<close>

theorem decompose_folds_top_bucket_witness:
  "(0::int) < 261888 \<and> 2 * 261888 dvd q - 1
   \<and> decompose 261888 8380416 = (0, - 1)
   \<and> decompose 261888 8118529 = (0, - 261888)
   \<and> decompose 261888 8118528 = (15, 261888)
   \<and> decompose 261888 261888 = (0, 261888)
   \<and> decompose 261888 261889 = (1, - 261887)"
proof -
  have g: "(0::int) < 261888" by simp
  have d: "2 * 261888 dvd q - 1" by (simp add: q_def)
  have m: "(q - 1) div (2 * 261888) = 16" by (simp add: q_def)
  have q1: "q - 1 = 8380416" by (simp add: q_def)
  show ?thesis
    using g d decompose_folds_top_bucket [OF g d, of 8118529 15 0]
      decompose_folds_top_bucket [OF g d, of 8118529 0 0]
    by (simp add: m q1)
qed

end
